theory Spec2Isabelle
  imports Complex_Main
begin

section \<open>Data model\<close>

text \<open>
  A pandas float is modelled as an optional real: \<open>None\<close> is NaN (a missing value),
  \<open>Some x\<close> a finite number. Arithmetic on finite numbers is exact; rounding error is
  outside the model, and so are infinite values, except in the duplicate-value detector,
  which has a float type of its own.
\<close>

type_synonym pyfloat = "real option"

text \<open>
  A scalar of a table. \<open>Text\<close> is text that \<open>pd.to_numeric\<close> cannot read as a finite
  number (text that spells one is held as the \<open>Num\<close> it parses to); \<open>Null\<close> is a missing
  cell (None or NaN).
\<close>

datatype cell = Num real | Text string | Bool bool | Null

type_synonym row = "string \<Rightarrow> cell"

text \<open>
  A DataFrame: the column names and the rows in index order. A row gives the cell under
  each column name; what it gives outside \<open>columns\<close> is of no concern.
\<close>

record dataframe =
  columns :: "string list"
  rows :: "row list"

text \<open>\<open>df[c]\<close>\<close>

definition series :: "dataframe \<Rightarrow> string \<Rightarrow> cell list" where
  "series df c = map (\<lambda>r. r c) (rows df)"

text \<open>\<open>df[c] = vs\<close>: an existing column is replaced, a new one is appended.\<close>

definition set_column :: "dataframe \<Rightarrow> string \<Rightarrow> cell list \<Rightarrow> dataframe" where
  "set_column df c vs =
     \<lparr>columns = (if c \<in> set (columns df) then columns df else columns df @ [c]),
      rows = map (\<lambda>(r, v). r(c := v)) (zip (rows df) vs)\<rparr>"

text \<open>\<open>df[mask]\<close>: the rows whose mask entry is true, in their order.\<close>

definition select_rows :: "dataframe \<Rightarrow> bool list \<Rightarrow> dataframe" where
  "select_rows df keep =
     \<lparr>columns = columns df, rows = map fst (filter snd (zip (rows df) keep))\<rparr>"

text \<open>\<open>df.loc[mask, c] = v\<close>\<close>

definition loc_assign :: "dataframe \<Rightarrow> bool list \<Rightarrow> string \<Rightarrow> cell \<Rightarrow> dataframe" where
  "loc_assign df sel c v =
     \<lparr>columns = columns df,
      rows = map (\<lambda>(r, m). if m then r(c := v) else r) (zip (rows df) sel)\<rparr>"

fun float_cell :: "pyfloat \<Rightarrow> cell" where
  "float_cell None = Null"
| "float_cell (Some x) = Num x"

definition notna :: "pyfloat \<Rightarrow> bool" where
  "notna v = (v \<noteq> None)"

definition isna :: "pyfloat \<Rightarrow> bool" where
  "isna v = (v = None)"

section \<open>Data quality utilities (helpers.py)\<close>

text \<open>
  \<open>_to_float_series\<close>: \<open>pd.to_numeric(s, errors="coerce")\<close>. A number stays, a boolean
  becomes 1.0 or 0.0, text that is no number and a missing cell become NaN. With
  \<open>errors="coerce"\<close> no cell of the model makes the call raise, so the \<open>except\<close> branch
  (an all-NaN series) is never taken.
\<close>

fun to_numeric :: "cell \<Rightarrow> pyfloat" where
  "to_numeric (Num x) = Some x"
| "to_numeric (Bool b) = Some (if b then 1 else 0)"
| "to_numeric (Text s) = None"
| "to_numeric Null = None"

definition to_float_series :: "cell list \<Rightarrow> pyfloat list" where
  "to_float_series s = map to_numeric s"

text \<open>The bounds \<open>lo\<close> and \<open>hi\<close>: \<open>-np.inf\<close>, \<open>np.inf\<close> or \<open>float(v)\<close>.\<close>

datatype bound = NegInf | Finite real | PosInf

definition lo_bound :: "real option \<Rightarrow> bound" where
  "lo_bound min_val = (case min_val of None \<Rightarrow> NegInf | Some m \<Rightarrow> Finite m)"

definition hi_bound :: "real option \<Rightarrow> bound" where
  "hi_bound max_val = (case max_val of None \<Rightarrow> PosInf | Some m \<Rightarrow> Finite m)"

text \<open>\<open>v >= b\<close> and \<open>v <= b\<close> on a float and a bound; a comparison with NaN is false.\<close>

fun ge_bound :: "pyfloat \<Rightarrow> bound \<Rightarrow> bool" where
  "ge_bound None b = False"
| "ge_bound (Some x) NegInf = True"
| "ge_bound (Some x) (Finite l) = (l \<le> x)"
| "ge_bound (Some x) PosInf = False"

fun le_bound :: "pyfloat \<Rightarrow> bound \<Rightarrow> bool" where
  "le_bound None b = False"
| "le_bound (Some x) NegInf = False"
| "le_bound (Some x) (Finite h) = (x \<le> h)"
| "le_bound (Some x) PosInf = True"

fun isfinite :: "bound \<Rightarrow> bool" where
  "isfinite (Finite x) = True"
| "isfinite b = False"

text \<open>\<open>valid_mask = (out[column] >= lo) & (out[column] <= hi) & out[column].notna()\<close>\<close>

definition valid :: "bound \<Rightarrow> bound \<Rightarrow> pyfloat \<Rightarrow> bool" where
  "valid lo hi v = (ge_bound v lo \<and> le_bound v hi \<and> notna v)"

definition valid_mask :: "bound \<Rightarrow> bound \<Rightarrow> pyfloat list \<Rightarrow> bool list" where
  "valid_mask lo hi vals = map (valid lo hi) vals"

text \<open>\<open>affected = int((~valid_mask & out[column].notna()).sum())\<close>\<close>

definition affected_count :: "bound \<Rightarrow> bound \<Rightarrow> pyfloat list \<Rightarrow> nat" where
  "affected_count lo hi vals =
     length (filter (\<lambda>(ok, v). \<not> ok \<and> notna v) (zip (valid_mask lo hi vals) vals))"

text \<open>\<open>out.loc[valid_mask, column]\<close>, as the numbers it holds.\<close>

definition valid_values :: "bound \<Rightarrow> bound \<Rightarrow> pyfloat list \<Rightarrow> real list" where
  "valid_values lo hi vals =
     map (\<lambda>(ok, v). the v) (filter fst (zip (valid_mask lo hi vals) vals))"

definition mean :: "real list \<Rightarrow> real" where
  "mean xs = sum_list xs / real (length xs)"

text \<open>Python's \<open>round(x)\<close> on a float: the nearest integer, a tie going to the even one.\<close>

definition py_round :: "real \<Rightarrow> int" where
  "py_round x =
     (let f = \<lfloor>x\<rfloor>; d = x - of_int f
      in if d < 1 / 2 then f else if 1 / 2 < d then f + 1
         else if even f then f else f + 1)"

definition midpoint_or_zero :: "bound \<Rightarrow> bound \<Rightarrow> real" where
  "midpoint_or_zero lo hi =
     (case (lo, hi) of (Finite l, Finite h) \<Rightarrow> (l + h) / 2.0 | _ \<Rightarrow> 0.0)"

definition imputed_value :: "bound \<Rightarrow> bound \<Rightarrow> pyfloat list \<Rightarrow> bool \<Rightarrow> real" where
  "imputed_value lo hi vals round_to_int =
     (let vv = valid_values lo hi vals;
          v = (if length vv = 0 then midpoint_or_zero lo hi else mean vv)
      in if round_to_int then of_int (py_round v) else v)"

text \<open>
  \<open>handle_numeric_outliers(df, column, method, min_val, max_val, round_to_int)\<close>, returning
  \<open>(cleaned_df, affected_count, imputed_value_or_None)\<close>. The method is the string the
  caller passes: the source compares it with "leave" and "exclude" and treats every other
  string as "impute_mean".
\<close>

definition handle_numeric_outliers ::
  "dataframe \<Rightarrow> string \<Rightarrow> string \<Rightarrow> real option \<Rightarrow> real option \<Rightarrow> bool
     \<Rightarrow> dataframe \<times> nat \<times> real option" where
  "handle_numeric_outliers df column method min_val max_val round_to_int =
     (if column \<notin> set (columns df) then (df, 0, None)
      else
        let vals = to_float_series (series df column);
            out = set_column df column (map float_cell vals);
            lo = lo_bound min_val;
            hi = hi_bound max_val;
            vmask = valid_mask lo hi vals;
            affected = affected_count lo hi vals
        in if affected = 0 then (out, 0, None)
           else if method = ''leave'' then (out, affected, None)
           else if method = ''exclude'' then
             (select_rows out (map (\<lambda>(ok, v). ok \<or> isna v) (zip vmask vals)), affected, None)
           else
             let iv = imputed_value lo hi vals round_to_int
             in (loc_assign out (map Not vmask) column (Num iv), affected, Some iv))"

text \<open>The float a row holds under a column after coercion, and the row with that cell coerced.\<close>

definition cval :: "string \<Rightarrow> row \<Rightarrow> pyfloat" where
  "cval c r = to_numeric (r c)"

definition coerce_row :: "string \<Rightarrow> row \<Rightarrow> row" where
  "coerce_row c r = r(c := float_cell (to_numeric (r c)))"

subsection \<open>Duplicate-value detector\<close>

text \<open>
  The detector is modelled with the infinite values a column can hold, because its result
  depends on them: \<open>pd.to_numeric\<close> keeps an infinite float, and reads text that spells one
  as that value. A float of the detector is NaN, a finite number, or an infinity
  (\<open>Infinity True\<close> is \<open>inf\<close>, \<open>Infinity False\<close> is \<open>-inf\<close>).
\<close>

datatype npfloat = NaN | Number real | Infinity bool

text \<open>
  \<open>pd.to_numeric(s, errors="coerce")\<close> on one cell, infinite values included. A cell that
  holds an infinite value, as a float or as text in any spelling, is given as the text
  "inf" or "-inf".
\<close>

fun to_numeric_inf :: "cell \<Rightarrow> npfloat" where
  "to_numeric_inf (Num x) = Number x"
| "to_numeric_inf (Bool b) = Number (if b then 1 else 0)"
| "to_numeric_inf (Text s) =
     (if s = ''inf'' then Infinity True else if s = ''-inf'' then Infinity False else NaN)"
| "to_numeric_inf Null = NaN"

text \<open>\<open>_to_float_series\<close>, infinite values included.\<close>

definition to_float_series_inf :: "cell list \<Rightarrow> npfloat list" where
  "to_float_series_inf s = map to_numeric_inf s"

text \<open>
  \<open>values.value_counts()\<close>: each distinct value that is not NaN with the number of its
  occurrences, the most frequent first. The order among equally frequent values is not
  fixed here as pandas fixes it; the loop below only accumulates a disjunction.
\<close>

definition value_counts :: "npfloat list \<Rightarrow> (npfloat \<times> nat) list" where
  "value_counts vals =
     (let xs = filter (\<lambda>v. v \<noteq> NaN) vals
      in sort_key (\<lambda>(x, n). - int n) (map (\<lambda>x. (x, count_list xs x)) (remdups xs)))"

text \<open>\<open>value_counts[value_counts >= min_occurrences].index.tolist()\<close>\<close>

definition frequent_values :: "npfloat list \<Rightarrow> int \<Rightarrow> npfloat list" where
  "frequent_values vals min_occurrences =
     map fst (filter (\<lambda>(x, n). int n \<ge> min_occurrences) (value_counts vals))"

definition digit :: "nat \<Rightarrow> char" where
  "digit d = ''0123456789'' ! d"

text \<open>\<open>str(n)\<close> for an integer that is not negative.\<close>

function show_int :: "int \<Rightarrow> string" where
  "show_int n =
     (if n < 10 then [digit (nat n)] else show_int (n div 10) @ [digit (nat (n mod 10))])"
  by pat_completeness auto
termination
  by (relation "measure nat") auto

declare show_int.simps [simp del]

text \<open>
  \<open>f"{val:.10f}"\<close> for a finite \<open>val\<close>: sign, integer digits, a point and ten decimals,
  rounded to the nearest with a tie going to the even digit.
\<close>

definition fixed_10 :: "real \<Rightarrow> string" where
  "fixed_10 val =
     (let n = py_round (\<bar>val\<bar> * 10 ^ 10);
          ds = show_int (n mod 10 ^ 10)
      in (if val < 0 then ''-'' else '''') @ show_int (n div 10 ^ 10) @ ''.'' @
         replicate (10 - length ds) (CHR ''0'') @ ds)"

text \<open>\<open>f"{val:.10f}"\<close>: an infinite value and NaN are written without a point.\<close>

fun format_10f :: "npfloat \<Rightarrow> string" where
  "format_10f (Number x) = fixed_10 x"
| "format_10f (Infinity b) = (if b then ''inf'' else ''-inf'')"
| "format_10f NaN = ''nan''"

text \<open>\<open>s.rstrip('0')\<close>\<close>

definition rstrip0 :: "string \<Rightarrow> string" where
  "rstrip0 s = rev (dropWhile (\<lambda>c. c = CHR ''0'') (rev s))"

text \<open>\<open>s.split('.')[1]\<close>, for a string that holds a point.\<close>

definition after_point :: "string \<Rightarrow> string" where
  "after_point s = takeWhile (\<lambda>c. c \<noteq> CHR ''.'') (tl (dropWhile (\<lambda>c. c \<noteq> CHR ''.'') s))"

text \<open>\<open>a == b\<close> on floats: NaN equals nothing.\<close>

definition float_eq :: "npfloat \<Rightarrow> npfloat \<Rightarrow> bool" where
  "float_eq a b = (a \<noteq> NaN \<and> a = b)"

text \<open>\<open>suspicious |= (values == val)\<close>\<close>

definition or_equal :: "bool list \<Rightarrow> npfloat list \<Rightarrow> npfloat \<Rightarrow> bool list" where
  "or_equal suspicious vals val = map (\<lambda>(s, v). s \<or> float_eq v val) (zip suspicious vals)"

text \<open>The loop over \<open>frequent_values\<close>; \<open>pd.notna(val)\<close> is \<open>val \<noteq> NaN\<close>.\<close>

fun flag_frequent :: "int \<Rightarrow> npfloat list \<Rightarrow> npfloat list \<Rightarrow> bool list \<Rightarrow> bool list" where
  "flag_frequent precision_threshold vals [] suspicious = suspicious"
| "flag_frequent precision_threshold vals (val # rest) suspicious =
     flag_frequent precision_threshold vals rest
       (if val \<noteq> NaN then
          let val_str = rstrip0 (format_10f val)
          in if CHR ''.'' \<in> set val_str then
               let decimal_places = length (after_point val_str)
               in if int decimal_places \<ge> precision_threshold
                  then or_equal suspicious vals val
                  else or_equal suspicious vals val
             else suspicious
        else suspicious)"

definition detect_suspicious_duplicates ::
  "dataframe \<Rightarrow> string \<Rightarrow> int \<Rightarrow> int \<Rightarrow> bool list" where
  "detect_suspicious_duplicates df column min_occurrences precision_threshold =
     (if column \<notin> set (columns df) then replicate (length (rows df)) False
      else
        let suspicious = replicate (length (rows df)) False;
            vals = to_float_series_inf (series df column)
        in flag_frequent precision_threshold vals
             (frequent_values vals min_occurrences) suspicious)"

text \<open>
  The detector as the specification words it when the precision is left out: a row is
  marked when its value is not missing and occurs at least \<open>min_occurrences\<close> times.
\<close>

definition detect_frequency_only :: "dataframe \<Rightarrow> string \<Rightarrow> int \<Rightarrow> bool list" where
  "detect_frequency_only df column min_occurrences =
     (if column \<notin> set (columns df) then replicate (length (rows df)) False
      else
        let vals = to_float_series_inf (series df column)
        in map (\<lambda>v. v \<noteq> NaN \<and> int (count_list vals v) \<ge> min_occurrences) vals)"

section \<open>Risk scoring (helpers.py)\<close>



fun fsub :: "pyfloat \<Rightarrow> pyfloat \<Rightarrow> pyfloat" where
  "fsub (Some x) (Some y) = Some (x - y)"
| "fsub a b = None"

fun fmul :: "pyfloat \<Rightarrow> pyfloat \<Rightarrow> pyfloat" where
  "fmul (Some x) (Some y) = Some (x * y)"
| "fmul a b = None"

fun fdiv :: "pyfloat \<Rightarrow> pyfloat \<Rightarrow> pyfloat" where
  "fdiv (Some x) (Some y) = (if y = 0 then None else Some (x / y))"
| "fdiv a b = None"




text \<open>\<open>s.dropna()\<close>, as the numbers it holds.\<close>

definition dropna :: "pyfloat list \<Rightarrow> real list" where
  "dropna vals = concat (map (\<lambda>v. case v of None \<Rightarrow> [] | Some x \<Rightarrow> [x]) vals)"

text \<open>\<open>s.mean()\<close>, \<open>s.std(ddof=0)\<close> and \<open>s.max()\<close>: missing values are skipped, and the
  result is NaN when nothing is left.\<close>

definition fmean :: "pyfloat list \<Rightarrow> pyfloat" where
  "fmean s = (let xs = dropna s in if xs = [] then None else Some (mean xs))"

definition fstd :: "pyfloat list \<Rightarrow> pyfloat" where
  "fstd s =
     (let xs = dropna s
      in if xs = [] then None
         else Some (sqrt (mean (map (\<lambda>x. (x - mean xs)\<^sup>2) xs))))"









text \<open>The inner function \<open>zscore\<close>, on the amounts of one group.\<close>

definition zscore :: "pyfloat list \<Rightarrow> pyfloat list" where
  "zscore s =
     (let m = fmean s; sd = fstd s
      in if sd = Some 0 \<or> isna sd then map (\<lambda>x. fmul (fsub x m) (Some 0)) s
         else map (\<lambda>x. fdiv (fsub x m) sd) s)"












section \<open>Sidebar validation and cleaning of the age column (app.py)\<close>

text \<open>
  What the sidebar shows: \<open>st.error\<close> displays a message and the script goes on. The
  message starts with a warning sign (U+26A0 U+FE0F), given here by its UTF-8 bytes.
\<close>

datatype ui_event = StError string

definition warning_sign :: string where
  "warning_sign = [CHR 0xE2, CHR 0x9A, CHR 0xA0, CHR 0xEF, CHR 0xB8, CHR 0x8F]"

definition age_validation :: "int \<Rightarrow> int \<Rightarrow> ui_event list" where
  "age_validation age_min age_max =
     (if age_min \<ge> age_max
      then [StError (warning_sign @ '' Min age must be less than max age'')] else [])"

text \<open>\<open>method_map.get(label, 'impute_mean')\<close>\<close>

definition method_map_get :: "string \<Rightarrow> string" where
  "method_map_get label =
     (if label = ''Impute mean'' then ''impute_mean''
      else if label = ''Exclude rows'' then ''exclude''
      else if label = ''Leave as-is'' then ''leave''
      else ''impute_mean'')"

text \<open>The age expander of the sidebar followed by the cleaning of the age column.\<close>

definition clean_age ::
  "dataframe \<Rightarrow> string \<Rightarrow> int \<Rightarrow> int \<Rightarrow> ui_event list \<times> dataframe \<times> nat \<times> real option" where
  "clean_age df age_method age_min age_max =
     (age_validation age_min age_max,
      handle_numeric_outliers df ''age'' (method_map_get age_method)
        (Some (of_int age_min)) (Some (of_int age_max)) True)"

section \<open>Example tables\<close>

definition mk_row :: "(string \<times> cell) list \<Rightarrow> row" where
  "mk_row kvs = (\<lambda>c. case map_of kvs c of Some v \<Rightarrow> v | None \<Rightarrow> Null)"

definition one_column :: "string \<Rightarrow> cell list \<Rightarrow> dataframe" where
  "one_column c vs = \<lparr>columns = [c], rows = map (\<lambda>v. mk_row [(c, v)]) vs\<rparr>"

definition ages_with_missing :: dataframe where
  "ages_with_missing = one_column ''age'' [Num 150, Null, Num 30]"

definition ages_with_text :: dataframe where
  "ages_with_text = one_column ''age'' [Num 150, Text ''abc'', Num 30]"

definition ages_on_bounds :: dataframe where
  "ages_on_bounds = one_column ''age''
     [Num 5, Num 18, Num 150, Null, Num 90, Text ''abc'', Num (1799 / 100), Num 50]"

definition one_child :: dataframe where
  "one_child = one_column ''age'' [Num 5]"

definition rates :: dataframe where
  "rates = one_column ''rate'' [Num (3 / 10), Num (9 / 10)]"

definition incomes :: dataframe where
  "incomes = one_column ''annual_income''
     [Num (123456789 / 100000), Num (123456789 / 100000), Num (500005 / 10), Null,
      Num (123456789 / 100000), Text ''n/a'']"

definition incomes_inf :: dataframe where
  "incomes_inf = one_column ''annual_income'' [Text ''inf'', Text ''inf'', Num 1, Num 1]"



section \<open>Properties of the numeric range cleaner\<close>

lemmas cleaner_defs =
  handle_numeric_outliers_def series_def set_column_def select_rows_def loc_assign_def
  to_float_series_def lo_bound_def hi_bound_def valid_mask_def valid_def affected_count_def
  imputed_value_def valid_values_def mean_def py_round_def
  midpoint_or_zero_def one_column_def mk_row_def Let_def

lemma notna_simps [simp]: "notna (Some x)" "\<not> notna None"
  by (simp_all add: notna_def)

lemma isna_simps [simp]: "\<not> isna (Some x)" "isna None"
  by (simp_all add: isna_def)

lemma to_numeric_float_cell [simp]: "to_numeric (float_cell v) = v"
  by (cases v) simp_all

lemma rows_coerced:
  "rows (set_column df c (map float_cell (to_float_series (series df c)))) = map (coerce_row c) (rows df)"
  by (simp add: set_column_def to_float_series_def series_def zip_map2 zip_same_conv_map coerce_row_def)

lemma columns_coerced:
  "c \<in> set (columns df) \<Longrightarrow> columns (set_column df c vs) = columns df"
  by (simp add: set_column_def)

lemma affected_count_filter:
  "affected_count lo hi vals = length (filter (\<lambda>v. \<not> valid lo hi v \<and> notna v) vals)"
  by (simp add: affected_count_def valid_mask_def zip_map1 zip_same_conv_map filter_map o_def)

lemma valid_values_filter:
  "valid_values lo hi vals = map the (filter (valid lo hi) vals)"
  by (simp add: valid_values_def valid_mask_def zip_map1 zip_same_conv_map filter_map o_def)

lemma select_rows_map:
  "rows (select_rows df (map P (map f (rows df)))) = filter (\<lambda>r. P (f r)) (rows df)"
  by (simp add: select_rows_def zip_map2 zip_same_conv_map filter_map o_def)

lemma loc_assign_map:
  "rows (loc_assign df (map P (map f (rows df))) c v) = map (\<lambda>r. if P (f r) then r(c := v) else r) (rows df)"
  by (simp add: loc_assign_def zip_map2 zip_same_conv_map o_def)

lemma cval_coerce_row [simp]: "cval c (coerce_row c r) = cval c r"
  by (simp add: cval_def coerce_row_def)

lemma to_float_series_cval: "to_float_series (series df c) = map (cval c) (rows df)"
  by (simp add: to_float_series_def series_def cval_def)

lemma hno_absent:
  "c \<notin> set (columns df) \<Longrightarrow> handle_numeric_outliers df c m mn mx r = (df, 0, None)"
  by (simp add: handle_numeric_outliers_def)

lemma set_column_coerced:
  assumes "c \<in> set (columns df)"
  shows "set_column df c (map float_cell (map (cval c) (rows df))) =
    \<lparr>columns = columns df, rows = map (coerce_row c) (rows df)\<rparr>"
  using assms
  by (simp add: set_column_def zip_map2 zip_same_conv_map coerce_row_def cval_def)

lemma valid_mask_cval:
  "valid_mask lo hi (map (cval c) rs) = map (\<lambda>r. valid lo hi (cval c r)) rs"
  by (simp add: valid_mask_def)

lemma select_rows_coerced:
  "select_rows \<lparr>columns = cs, rows = map g rs\<rparr>
     (map (\<lambda>(ok, v). ok \<or> isna v) (zip (map P rs) (map f rs))) =
   \<lparr>columns = cs, rows = map g (filter (\<lambda>r. P r \<or> isna (f r)) rs)\<rparr>"
  by (simp add: select_rows_def zip_map1 zip_map2 zip_same_conv_map filter_map o_def)

lemma loc_assign_coerced:
  "loc_assign \<lparr>columns = cs, rows = map g rs\<rparr> (map Not (map P rs)) c v =
   \<lparr>columns = cs, rows = map (\<lambda>r. if P r then g r else (g r)(c := v)) rs\<rparr>"
  by (simp add: loc_assign_def zip_map1 zip_map2 zip_same_conv_map o_def cong: if_cong)

lemma affected_count_cval:
  "affected_count lo hi (map (cval c) rs) =
     length (filter (\<lambda>r. \<not> valid lo hi (cval c r) \<and> notna (cval c r)) rs)"
  by (simp add: affected_count_filter filter_map o_def)

lemma hno_present:
  assumes "c \<in> set (columns df)"
  shows "handle_numeric_outliers df c m mn mx rnd =
    (let lo = lo_bound mn; hi = hi_bound mx;
         a = length (filter (\<lambda>r. \<not> valid lo hi (cval c r) \<and> notna (cval c r)) (rows df));
         iv = imputed_value lo hi (map (cval c) (rows df)) rnd
     in if a = 0 then (\<lparr>columns = columns df, rows = map (coerce_row c) (rows df)\<rparr>, 0, None)
        else if m = ''leave'' then (\<lparr>columns = columns df, rows = map (coerce_row c) (rows df)\<rparr>, a, None)
        else if m = ''exclude'' then
          (\<lparr>columns = columns df,
            rows = map (coerce_row c) (filter (\<lambda>r. valid lo hi (cval c r) \<or> isna (cval c r)) (rows df))\<rparr>, a, None)
        else (\<lparr>columns = columns df,
               rows = map (\<lambda>r. if valid lo hi (cval c r) then coerce_row c r
                                else (coerce_row c r)(c := Num iv)) (rows df)\<rparr>,
              a, Some iv))"
  using assms
  unfolding handle_numeric_outliers_def Let_def to_float_series_cval
  by (simp only: set_column_coerced valid_mask_cval select_rows_coerced loc_assign_coerced
        affected_count_cval) simp

lemma valid_iff: "valid lo hi v \<longleftrightarrow> ge_bound v lo \<and> le_bound v hi"
  by (cases v) (simp_all add: valid_def notna_def)

lemma hno_affected:
  assumes "c \<in> set (columns df)"
  shows "fst (snd (handle_numeric_outliers df c m mn mx rnd)) =
    length (filter (\<lambda>r. \<not> valid (lo_bound mn) (hi_bound mx) (cval c r) \<and> notna (cval c r)) (rows df))"
  using assms by (simp add: hno_present Let_def)

lemma hno_columns:
  "columns (fst (handle_numeric_outliers df c m mn mx rnd)) = columns df"
  by (cases "c \<in> set (columns df)") (simp_all add: hno_present hno_absent Let_def)

lemma no_affected_all_ok:
  assumes "length (filter (\<lambda>r. \<not> valid lo hi (cval c r) \<and> notna (cval c r)) rs) = 0"
  shows "filter (\<lambda>r. valid lo hi (cval c r) \<or> isna (cval c r)) rs = rs"
proof -
  from assms have "\<forall>r \<in> set rs. valid lo hi (cval c r) \<or> isna (cval c r)"
    by (auto simp: filter_empty_conv notna_def isna_def)
  then show ?thesis by simp
qed

lemma keep_drop_length:
  "length (filter (\<lambda>r. valid lo hi (cval c r) \<or> isna (cval c r)) rs) +
   length (filter (\<lambda>r. \<not> valid lo hi (cval c r) \<and> notna (cval c r)) rs) = length rs"
  by (induction rs) (auto simp: notna_def isna_def)

lemma valid_plain:
  "valid (lo_bound min_val) (hi_bound max_val) (Some x) \<longleftrightarrow>
     (\<forall>l. min_val = Some l \<longrightarrow> l \<le> x) \<and> (\<forall>h. max_val = Some h \<longrightarrow> x \<le> h)"
  by (cases min_val; cases max_val) (simp_all add: valid_def lo_bound_def hi_bound_def)

lemma invalid_plain:
  "\<not> valid (lo_bound min_val) (hi_bound max_val) (Some x) \<longleftrightarrow>
     (\<exists>l. min_val = Some l \<and> x < l) \<or> (\<exists>h. max_val = Some h \<and> h < x)"
  by (cases min_val; cases max_val) (auto simp add: valid_def lo_bound_def hi_bound_def)

text \<open>
  Claim C2. With policy "exclude" on a column of the table and the bounds \<open>min_val\<close> and
  \<open>max_val\<close> (an absent bound does not restrict): every non-missing value \<open>x\<close> of the
  column in the returned table satisfies \<open>min_val \<le> x \<le> max_val\<close>; \<open>affected\<close> is the
  number of rows of the input whose value is a number below \<open>min_val\<close> or above \<open>max_val\<close>,
  and the row count drops by exactly that number; the returned rows are the input rows
  (the column coerced) whose value is missing or within the bounds, in their original
  order.
\<close>

theorem exclude_range_count_order:
  assumes "column \<in> set (columns df)"
    and "handle_numeric_outliers df column ''exclude'' min_val max_val rnd = (out, affected, imp)"
  shows "(\<forall>r \<in> set (rows out). \<forall>x. cval column r = Some x \<longrightarrow>
            (\<forall>l. min_val = Some l \<longrightarrow> l \<le> x) \<and> (\<forall>h. max_val = Some h \<longrightarrow> x \<le> h))
    \<and> affected = length (filter (\<lambda>r. \<exists>x. cval column r = Some x \<and>
            ((\<exists>l. min_val = Some l \<and> x < l) \<or> (\<exists>h. max_val = Some h \<and> h < x))) (rows df))
    \<and> length (rows out) + affected = length (rows df)
    \<and> rows out = map (coerce_row column)
          (filter (\<lambda>r. \<forall>x. cval column r = Some x \<longrightarrow>
             (\<forall>l. min_val = Some l \<longrightarrow> l \<le> x) \<and> (\<forall>h. max_val = Some h \<longrightarrow> x \<le> h))
          (rows df))"
proof -
  let ?lo = "lo_bound min_val" and ?hi = "hi_bound max_val"
  let ?bad = "\<lambda>r. \<not> valid ?lo ?hi (cval column r) \<and> notna (cval column r)"
  let ?keep = "\<lambda>r. valid ?lo ?hi (cval column r) \<or> isna (cval column r)"
  let ?in = "\<lambda>x. (\<forall>l. min_val = Some l \<longrightarrow> l \<le> x) \<and> (\<forall>h. max_val = Some h \<longrightarrow> x \<le> h)"
  have aff: "affected = length (filter ?bad (rows df))"
    using hno_affected [OF assms(1), of "''exclude''" min_val max_val rnd] assms(2) by simp
  have out: "rows out = map (coerce_row column) (filter ?keep (rows df))"
  proof (cases "length (filter ?bad (rows df)) = 0")
    case True
    then show ?thesis
      using assms no_affected_all_ok [OF True] by (auto simp add: hno_present Let_def)
  next
    case False
    then show ?thesis using assms by (auto simp add: hno_present Let_def)
  qed
  have keep_eq: "?keep = (\<lambda>r. \<forall>x. cval column r = Some x \<longrightarrow> ?in x)"
  proof
    fix r show "?keep r = (\<forall>x. cval column r = Some x \<longrightarrow> ?in x)"
      by (cases "cval column r") (simp_all add: valid_plain)
  qed
  have bad_eq: "?bad = (\<lambda>r. \<exists>x. cval column r = Some x \<and>
            ((\<exists>l. min_val = Some l \<and> x < l) \<or> (\<exists>h. max_val = Some h \<and> h < x)))"
  proof
    fix r show "?bad r = (\<exists>x. cval column r = Some x \<and>
            ((\<exists>l. min_val = Some l \<and> x < l) \<or> (\<exists>h. max_val = Some h \<and> h < x)))"
      by (cases "cval column r") (simp_all add: invalid_plain)
  qed
  have inr: "\<forall>r \<in> set (rows out). \<forall>x. cval column r = Some x \<longrightarrow> ?in x"
    unfolding out keep_eq by auto
  have len: "length (rows out) + affected = length (rows df)"
    unfolding out aff using keep_drop_length [of ?lo ?hi column "rows df"] by simp
  show ?thesis
    using inr len aff out unfolding bad_eq keep_eq by blast
qed

text \<open>
  Claim C4, as amended. Cleaning the output of a first call that was not "leave" again, with
  any policy and the same bounds, affects nothing, provided the first call reported no
  imputed value or one that lies in \<open>[lo, hi]\<close>.
\<close>

theorem clean_again_no_affected:
  assumes "handle_numeric_outliers df column m1 min_val max_val r1 = (out, a, imp)"
    and "m1 \<noteq> ''leave''"
    and "\<forall>v. imp = Some v \<longrightarrow> valid (lo_bound min_val) (hi_bound max_val) (Some v)"
  shows "fst (snd (handle_numeric_outliers out column m2 min_val max_val r2)) = 0"
proof (cases "column \<in> set (columns df)")
  case False
  then have "out = df" using assms(1) by (simp add: hno_absent)
  with False show ?thesis by (simp add: hno_absent)
next
  case True
  let ?lo = "lo_bound min_val" and ?hi = "hi_bound max_val"
  let ?bad = "\<lambda>r. \<not> valid ?lo ?hi (cval column r) \<and> notna (cval column r)"
  have cols: "column \<in> set (columns out)"
    using hno_columns [of df column m1 min_val max_val r1] assms(1) True by simp
  have ok: "\<forall>r \<in> set (rows out). \<not> ?bad r"
  proof (cases "length (filter ?bad (rows df)) = 0")
    case z: True
    then have "rows out = map (coerce_row column) (rows df)"
      using assms(1) True by (auto simp add: hno_present Let_def)
    moreover from z have "\<forall>r \<in> set (rows df). \<not> ?bad r"
      by (simp add: filter_empty_conv)
    ultimately show ?thesis by auto
  next
    case nz: False
    show ?thesis
    proof (cases "m1 = ''exclude''")
      case True
      then have "rows out = map (coerce_row column)
          (filter (\<lambda>r. valid ?lo ?hi (cval column r) \<or> isna (cval column r)) (rows df))"
        using assms(1) \<open>column \<in> set (columns df)\<close> nz by (auto simp add: hno_present Let_def)
      then show ?thesis by (auto simp: notna_def isna_def)
    next
      case False
      let ?iv = "imputed_value ?lo ?hi (map (cval column) (rows df)) r1"
      from False assms(2) nz have
        "rows out = map (\<lambda>r. if valid ?lo ?hi (cval column r) then coerce_row column r
                                else (coerce_row column r)(column := Num ?iv)) (rows df)"
        and "imp = Some ?iv"
        using assms(1) \<open>column \<in> set (columns df)\<close> by (auto simp add: hno_present Let_def)
      moreover from this assms(3) have "valid ?lo ?hi (Some ?iv)" by simp
      ultimately show ?thesis by (auto simp: cval_def coerce_row_def)
    qed
  qed
  then have "filter ?bad (rows out) = []" by (simp add: filter_empty_conv)
  then show ?thesis using hno_affected [OF cols, of m2 min_val max_val r2] by simp
qed

text \<open>
  Claim C2, witness: the ages 5, 18, 150, missing, 90, the text "abc", 17.99 and 50 with
  the bounds \<open>[18, 90]\<close>. The three ages outside the bounds (5 and 17.99 below, 150 above)
  are dropped; the ages on the bounds, both rows with a missing value and the age 50 stay,
  in order.
\<close>

theorem exclude_range_count_order_witness:
  "''age'' \<in> set (columns ages_on_bounds) \<and>
   map (cval ''age'') (rows ages_on_bounds) =
     [Some 5, Some 18, Some 150, None, Some 90, None, Some (1799 / 100), Some 50] \<and>
   fst (snd (handle_numeric_outliers ages_on_bounds ''age'' ''exclude'' (Some 18) (Some 90) True)) = 3 \<and>
   length (rows (fst (handle_numeric_outliers ages_on_bounds ''age'' ''exclude'' (Some 18) (Some 90) True))) + 3 = 8 \<and>
   map (cval ''age'')
     (rows (fst (handle_numeric_outliers ages_on_bounds ''age'' ''exclude'' (Some 18) (Some 90) True)))
     = [Some 18, None, Some 90, None, Some 50]"
proof -
  let ?R = "handle_numeric_outliers ages_on_bounds ''age'' ''exclude'' (Some 18) (Some 90) True"
  have h1: "''age'' \<in> set (columns ages_on_bounds)"
    by (simp add: ages_on_bounds_def one_column_def)
  have h2: "?R = (fst ?R, fst (snd ?R), snd (snd ?R))" by simp
  note t = exclude_range_count_order [OF h1 h2]
  have vals: "map (cval ''age'') (rows ages_on_bounds) =
     [Some 5, Some 18, Some 150, None, Some 90, None, Some (1799 / 100), Some 50]"
    by (simp add: ages_on_bounds_def one_column_def mk_row_def cval_def)
  have a: "fst (snd ?R) = 3"
    by (simp add: ages_on_bounds_def cleaner_defs)
  have n: "length (rows ages_on_bounds) = 8"
    by (simp add: ages_on_bounds_def one_column_def)
  have "length (rows (fst ?R)) + fst (snd ?R) = length (rows ages_on_bounds)"
    using t by (elim conjE)
  then have l: "length (rows (fst ?R)) + 3 = 8"
    unfolding a n .
  have r: "map (cval ''age'') (rows (fst ?R)) = [Some 18, None, Some 90, None, Some 50]"
    by (simp add: ages_on_bounds_def cleaner_defs cval_def)
  show ?thesis using h1 vals a l r by (intro conjI)
qed

text \<open>
  Claim C4, witness: the mean 30 imputed into ages 150, missing, 30 lies in \<open>[18, 90]\<close>, and
  a second cleaning affects nothing.
\<close>

theorem clean_again_no_affected_witness:
  "handle_numeric_outliers ages_with_missing ''age'' ''impute_mean'' (Some 18) (Some 90) True
     = (fst (handle_numeric_outliers ages_with_missing ''age'' ''impute_mean'' (Some 18) (Some 90) True), 1, Some 30)
   \<and> ''impute_mean'' \<noteq> ''leave''
   \<and> valid (lo_bound (Some 18)) (hi_bound (Some 90)) (Some 30)
   \<and> fst (snd (handle_numeric_outliers
        (fst (handle_numeric_outliers ages_with_missing ''age'' ''impute_mean'' (Some 18) (Some 90) True))
        ''age'' ''exclude'' (Some 18) (Some 90) False)) = 0"
proof -
  let ?R = "handle_numeric_outliers ages_with_missing ''age'' ''impute_mean'' (Some 18) (Some 90) True"
  have h1: "?R = (fst ?R, 1, Some 30)"
    by (simp add: ages_with_missing_def cleaner_defs)
  have h2: "''impute_mean'' \<noteq> ''leave''" by simp
  have v: "valid (lo_bound (Some 18)) (hi_bound (Some 90)) (Some 30)"
    by (simp add: valid_def lo_bound_def hi_bound_def)
  then have h3: "\<forall>v. Some (30::real) = Some v \<longrightarrow> valid (lo_bound (Some 18)) (hi_bound (Some 90)) (Some v)"
    by simp
  from clean_again_no_affected [OF h1 h2 h3, of "''exclude''" False] h1 h2 v
  show ?thesis by blast
qed

text \<open>
  Claim C4, counterexample. With \<open>min_val = 18\<close> and no upper bound, the age 5 has no valid
  peer, the fallback 0 is imputed, and the second cleaning counts it as affected. With
  bounds \<open>[0.1, 0.4]\<close> the mean 0.3 of the valid rates is rounded to 0, and the second
  cleaning counts that cell as affected.
\<close>

theorem second_clean_still_affected:
  "fst (snd (handle_numeric_outliers
      (fst (handle_numeric_outliers one_child ''age'' ''impute_mean'' (Some 18) None True))
      ''age'' ''impute_mean'' (Some 18) None True)) = 1 \<and>
   fst (snd (handle_numeric_outliers
      (fst (handle_numeric_outliers rates ''rate'' ''impute_mean'' (Some (1 / 10)) (Some (4 / 10)) True))
      ''rate'' ''exclude'' (Some (1 / 10)) (Some (4 / 10)) True)) = 1"
  by (simp add: one_child_def rates_def cleaner_defs)

text \<open>
  Claim C1, at the failing input: ages 150, missing, 30 with bounds \<open>[18, 90]\<close> and policy
  "impute_mean". One value is counted as affected and 30 is reported, but the missing
  cell is overwritten with 30 as well.
\<close>

theorem impute_overwrites_missing:
  "series ages_with_missing ''age'' = [Num 150, Null, Num 30] \<and>
   (let (out, affected, imp) =
      handle_numeric_outliers ages_with_missing ''age'' ''impute_mean'' (Some 18) (Some 90) True
    in (series out ''age'', affected, imp)) = ([Num 30, Num 30, Num 30], 1, Some 30)"
  by (simp add: ages_with_missing_def cleaner_defs)

text \<open>
  Claim C5, at the failing input: ages 150, the text "abc", 30 with bounds \<open>[18, 90]\<close> and
  policy "leave". The returned column holds a missing value where the input held text.
\<close>

theorem leave_coerces_text:
  "series ages_with_text ''age'' = [Num 150, Text ''abc'', Num 30] \<and>
   (let (out, affected, imp) =
      handle_numeric_outliers ages_with_text ''age'' ''leave'' (Some 18) (Some 90) True
    in (series out ''age'', affected, imp)) = ([Num 150, Null, Num 30], 1, None)"
  by (simp add: ages_with_text_def cleaner_defs)

text \<open>
  Claim C6, counterexample. Called with the inverted bounds \<open>min_val = 90\<close>, \<open>max_val = 18\<close>
  and the unknown policy name "median", the cleaner returns an ordinary result: both
  numbers are counted as affected and every cell is replaced by the midpoint 54.
\<close>

theorem inverted_range_unknown_policy_accepted:
  "(let (out, affected, imp) =
      handle_numeric_outliers ages_with_missing ''age'' ''median'' (Some 90) (Some 18) True
    in (series out ''age'', affected, imp)) = ([Num 54, Num 54, Num 54], 2, Some 54)"
  by (simp add: ages_with_missing_def cleaner_defs)

text \<open>
  Claim C6, as amended. The cleaner checks neither the policy name nor the bounds: a name
  other than "leave" and "exclude" is handled as "impute_mean"; with \<open>max_val < min_val\<close>
  every non-missing value is counted as affected. The sidebar shows an error message when
  the minimum age is not below the maximum age, and the age column is cleaned all the same.
\<close>

theorem clean_accepts_any_configuration:
  "(m \<noteq> ''leave'' \<and> m \<noteq> ''exclude'' \<longrightarrow>
      handle_numeric_outliers df c m mn mx rnd =
      handle_numeric_outliers df c ''impute_mean'' mn mx rnd)
   \<and> (c \<in> set (columns df) \<and> h < l \<longrightarrow>
      fst (snd (handle_numeric_outliers df c m (Some l) (Some h) rnd)) =
      length (filter (\<lambda>r. notna (cval c r)) (rows df)))
   \<and> (age_max \<le> age_min \<longrightarrow>
      clean_age df lbl age_min age_max =
        ([StError (warning_sign @ '' Min age must be less than max age'')],
         handle_numeric_outliers df ''age'' (method_map_get lbl)
           (Some (of_int age_min)) (Some (of_int age_max)) True))"
proof (intro conjI impI)
  assume "m \<noteq> ''leave'' \<and> m \<noteq> ''exclude''"
  then show "handle_numeric_outliers df c m mn mx rnd =
      handle_numeric_outliers df c ''impute_mean'' mn mx rnd"
    unfolding handle_numeric_outliers_def Let_def by simp
next
  assume a: "c \<in> set (columns df) \<and> h < l"
  then have "\<And>v. \<not> valid (lo_bound (Some l)) (hi_bound (Some h)) v"
    subgoal for v by (cases v) (auto simp: valid_def lo_bound_def hi_bound_def)
    done
  then show "fst (snd (handle_numeric_outliers df c m (Some l) (Some h) rnd)) =
      length (filter (\<lambda>r. notna (cval c r)) (rows df))"
    using a by (simp add: hno_affected)
next
  assume "age_max \<le> age_min"
  then show "clean_age df lbl age_min age_max =
        ([StError (warning_sign @ '' Min age must be less than max age'')],
         handle_numeric_outliers df ''age'' (method_map_get lbl)
           (Some (of_int age_min)) (Some (of_int age_max)) True)"
    by (simp add: clean_age_def age_validation_def)
qed


text \<open>
  Claim C6, witness: the policy name "median" and the bounds 90 and 18 on the ages 150,
  missing, 30.
\<close>

theorem clean_accepts_any_configuration_witness:
  "''median'' \<noteq> ''leave'' \<and> ''median'' \<noteq> ''exclude'' \<and>
   handle_numeric_outliers ages_with_missing ''age'' ''median'' (Some 90) (Some 18) True =
     handle_numeric_outliers ages_with_missing ''age'' ''impute_mean'' (Some 90) (Some 18) True \<and>
   ''age'' \<in> set (columns ages_with_missing) \<and> (18::real) < 90 \<and>
   fst (snd (handle_numeric_outliers ages_with_missing ''age'' ''median'' (Some 90) (Some 18) True)) = 2 \<and>
   (18::int) \<le> 90 \<and>
   fst (clean_age ages_with_missing ''Impute mean'' 90 18) =
     [StError (warning_sign @ '' Min age must be less than max age'')]"
proof -
  have c: "''age'' \<in> set (columns ages_with_missing)"
    by (simp add: ages_with_missing_def one_column_def)
  have n: "length (filter (\<lambda>r. notna (cval ''age'' r)) (rows ages_with_missing)) = 2"
    by (simp add: ages_with_missing_def one_column_def mk_row_def cval_def)
  have m: "''median'' \<noteq> ''leave'' \<and> ''median'' \<noteq> ''exclude''" by simp
  have lt: "(18::real) < 90" by simp
  have le: "(18::int) \<le> 90" by simp
  note t = clean_accepts_any_configuration
    [of "''median''" ages_with_missing "''age''" "Some 90" "Some 18" True 18 90 18 90 "''Impute mean''"]
  have t1: "handle_numeric_outliers ages_with_missing ''age'' ''median'' (Some 90) (Some 18) True =
     handle_numeric_outliers ages_with_missing ''age'' ''impute_mean'' (Some 90) (Some 18) True"
    by (rule mp [OF t [THEN conjunct1] m])
  have "fst (snd (handle_numeric_outliers ages_with_missing ''age'' ''median'' (Some 90) (Some 18) True)) =
      length (filter (\<lambda>r. notna (cval ''age'' r)) (rows ages_with_missing))"
    by (rule mp [OF t [THEN conjunct2, THEN conjunct1] conjI [OF c lt]])
  then have t2: "fst (snd (handle_numeric_outliers ages_with_missing ''age'' ''median'' (Some 90) (Some 18) True)) = 2"
    unfolding n .
  have "clean_age ages_with_missing ''Impute mean'' 90 18 =
        ([StError (warning_sign @ '' Min age must be less than max age'')],
         handle_numeric_outliers ages_with_missing ''age'' (method_map_get ''Impute mean'')
           (Some (of_int 90)) (Some (of_int 18)) True)"
    by (rule mp [OF t [THEN conjunct2, THEN conjunct2] le])
  then have t3: "fst (clean_age ages_with_missing ''Impute mean'' 90 18) =
     [StError (warning_sign @ '' Min age must be less than max age'')]"
    by (simp only: fst_conv)
  show ?thesis using m t1 c lt t2 le t3 by blast
qed

section \<open>Properties of the duplicate-value detector\<close>

text \<open>The cleaner's coercion is the detector's on finite values.\<close>

lemma to_numeric_finite:
  "to_numeric c = (case to_numeric_inf c of Number x \<Rightarrow> Some x | _ \<Rightarrow> None)"
  by (cases c) simp_all

lemma keeps_after_dropWhile: "a \<in> set xs \<Longrightarrow> \<not> P a \<Longrightarrow> a \<in> set (dropWhile P xs)"
  by (induction xs) auto

lemma point_in_fixed: "CHR ''.'' \<in> set (rstrip0 (fixed_10 x))"
proof -
  have "CHR ''.'' \<in> set (rev (fixed_10 x))"
    by (simp add: fixed_10_def Let_def)
  then have "CHR ''.'' \<in> set (dropWhile (\<lambda>c. c = CHR ''0'') (rev (fixed_10 x)))"
    by (rule keeps_after_dropWhile) simp
  then show ?thesis by (simp add: rstrip0_def)
qed

lemma point_in_format: "CHR ''.'' \<in> set (rstrip0 (format_10f v)) \<longleftrightarrow> (\<exists>x. v = Number x)"
proof (cases v)
  case (Number x)
  then show ?thesis by (simp add: point_in_fixed)
next
  case (Infinity b)
  then show ?thesis by (simp add: rstrip0_def)
next
  case NaN
  then show ?thesis by (simp add: rstrip0_def)
qed

lemma flag_frequent_step:
  "flag_frequent p vals (val # rest) s =
     flag_frequent p vals rest (if \<exists>x. val = Number x then or_equal s vals val else s)"
  by (cases val) (simp_all add: point_in_format Let_def del: format_10f.simps)

lemma or_equal_length [simp]: "length s = length vals \<Longrightarrow> length (or_equal s vals val) = length vals"
  by (simp add: or_equal_def)

lemma flag_frequent_marks:
  "length s = length vals \<Longrightarrow>
   flag_frequent p vals fv s = map (\<lambda>(b, v). b \<or> (\<exists>x. v = Number x \<and> v \<in> set fv)) (zip s vals)"
proof (induction fv arbitrary: s)
  case Nil
  then show ?case by (intro nth_equalityI) auto
next
  case (Cons val rest)
  let ?s = "if \<exists>x. val = Number x then or_equal s vals val else s"
  have l: "length ?s = length vals" using Cons.prems by simp
  have "flag_frequent p vals (val # rest) s = flag_frequent p vals rest ?s"
    by (rule flag_frequent_step)
  also have "\<dots> = map (\<lambda>(b, v). b \<or> (\<exists>x. v = Number x \<and> v \<in> set rest)) (zip ?s vals)"
    using Cons.IH [OF l] .
  also have "\<dots> = map (\<lambda>(b, v). b \<or> (\<exists>x. v = Number x \<and> v \<in> set (val # rest))) (zip s vals)"
    using Cons.prems by (intro nth_equalityI) (auto simp: or_equal_def float_eq_def)
  finally show ?case .
qed

lemma set_value_counts:
  "set (value_counts vals) = (\<lambda>x. (x, count_list vals x)) ` {x. x \<in> set vals \<and> x \<noteq> NaN}"
proof -
  have "count_list (filter (\<lambda>v. v \<noteq> NaN) vals) x = count_list vals x" if "x \<noteq> NaN" for x
    using that by (induction vals) auto
  then show ?thesis
    by (auto simp add: value_counts_def Let_def)
qed

lemma set_frequent_values:
  "set (frequent_values vals m) = {x. x \<in> set vals \<and> x \<noteq> NaN \<and> int (count_list vals x) \<ge> m}"
proof -
  have "set (frequent_values vals m) =
      fst ` {p \<in> set (value_counts vals). m \<le> int (snd p)}"
    by (simp add: frequent_values_def case_prod_unfold)
  also have "\<dots> = {x. x \<in> set vals \<and> x \<noteq> NaN \<and> int (count_list vals x) \<ge> m}"
    unfolding set_value_counts by force
  finally show ?thesis .
qed

text \<open>The mask of the detector: the rows holding a finite number that is frequent.\<close>

lemma detect_finite_frequent:
  "detect_suspicious_duplicates df column min_occurrences precision_threshold =
     (if column \<notin> set (columns df) then replicate (length (rows df)) False
      else map (\<lambda>v. (\<exists>x. v = Number x) \<and>
                  min_occurrences \<le> int (count_list (to_float_series_inf (series df column)) v))
             (to_float_series_inf (series df column)))"
proof (cases "column \<in> set (columns df)")
  case False
  then show ?thesis
    by (simp add: detect_suspicious_duplicates_def)
next
  case True
  let ?vals = "to_float_series_inf (series df column)"
  have len: "length (replicate (length (rows df)) False) = length ?vals"
    by (simp add: to_float_series_inf_def series_def)
  have "detect_suspicious_duplicates df column min_occurrences precision_threshold =
      map (\<lambda>(b, v). b \<or> (\<exists>x. v = Number x \<and> v \<in> set (frequent_values ?vals min_occurrences)))
        (zip (replicate (length (rows df)) False) ?vals)"
    using True flag_frequent_marks [OF len]
    by (simp add: detect_suspicious_duplicates_def Let_def)
  also have "\<dots> = map (\<lambda>v. (\<exists>x. v = Number x) \<and> min_occurrences \<le> int (count_list ?vals v)) ?vals"
    using len
    by (intro nth_equalityI) (auto simp: set_frequent_values dest: nth_mem)
  finally show ?thesis using True by simp
qed

lemma incomes_inf_values:
  "to_float_series_inf (series incomes_inf ''annual_income'') =
     [Infinity True, Infinity True, Number 1, Number 1]"
  by (simp add: incomes_inf_def one_column_def mk_row_def series_def to_float_series_inf_def)

lemma incomes_inf_column: "''annual_income'' \<in> set (columns incomes_inf)"
  by (simp add: incomes_inf_def one_column_def)

text \<open>
  Claim C8, counterexample. In the column \<open>inf, inf, 1, 1\<close> both values are not missing and
  occur twice, but with \<open>min_occurrences = 2\<close> only the rows holding 1 are marked: the
  infinite value is written "inf", without a point, and is skipped.
\<close>

theorem frequent_infinite_value_not_marked:
  "to_float_series_inf (series incomes_inf ''annual_income'') =
     [Infinity True, Infinity True, Number 1, Number 1] \<and>
   count_list (to_float_series_inf (series incomes_inf ''annual_income'')) (Infinity True) = 2 \<and>
   detect_suspicious_duplicates incomes_inf ''annual_income'' 2 4 = [False, False, True, True]"
  by (simp add: detect_finite_frequent incomes_inf_values incomes_inf_column)

text \<open>
  Claim C8, as amended. The mask has one entry per row, in row order, and a row is marked
  exactly when the column is present, the row's coerced value is a finite number and that
  value occurs at least \<open>min_occurrences\<close> times in the column, whatever its decimals; rows
  with a missing or an infinite value are never marked.
\<close>

theorem detect_marks_frequent_values:
  "length (detect_suspicious_duplicates df column min_occurrences precision_threshold) =
     length (rows df) \<and>
   (\<forall>i < length (rows df).
      detect_suspicious_duplicates df column min_occurrences precision_threshold ! i \<longleftrightarrow>
        column \<in> set (columns df) \<and>
        (\<exists>x. to_numeric_inf ((rows df ! i) column) = Number x \<and>
             min_occurrences \<le>
               int (count_list (map (\<lambda>r. to_numeric_inf (r column)) (rows df)) (Number x))))"
proof -
  have v: "to_float_series_inf (series df column) = map (\<lambda>r. to_numeric_inf (r column)) (rows df)"
    by (simp add: to_float_series_inf_def series_def)
  show ?thesis
    by (cases "column \<in> set (columns df)") (auto simp add: detect_finite_frequent v)
qed

text \<open>
  Claim C8, witness: an income with five decimals occurring three times is marked with
  \<open>min_occurrences = 3\<close>; the income occurring once and the missing cell are not.
\<close>

theorem detect_marks_frequent_values_witness:
  "(0::nat) < length (rows incomes) \<and> (2::nat) < length (rows incomes) \<and>
   (3::nat) < length (rows incomes) \<and>
   length (detect_suspicious_duplicates incomes ''annual_income'' 3 4) = 6 \<and>
   detect_suspicious_duplicates incomes ''annual_income'' 3 4 ! 0 \<and>
   \<not> detect_suspicious_duplicates incomes ''annual_income'' 3 4 ! 2 \<and>
   \<not> detect_suspicious_duplicates incomes ''annual_income'' 3 4 ! 3"
proof -
  have n: "length (rows incomes) = 6"
    by (simp add: incomes_def one_column_def)
  have c: "''annual_income'' \<in> set (columns incomes)"
    by (simp add: incomes_def one_column_def)
  have vals: "map (\<lambda>r. to_numeric_inf (r ''annual_income'')) (rows incomes) =
      [Number (123456789 / 100000), Number (123456789 / 100000), Number (500005 / 10), NaN,
       Number (123456789 / 100000), NaN]"
    by (simp add: incomes_def one_column_def mk_row_def)
  have v0: "to_numeric_inf ((rows incomes ! 0) ''annual_income'') = Number (123456789 / 100000)"
    and v2: "to_numeric_inf ((rows incomes ! 2) ''annual_income'') = Number (500005 / 10)"
    and v3: "to_numeric_inf ((rows incomes ! 3) ''annual_income'') = NaN"
    by (simp_all add: incomes_def one_column_def mk_row_def)
  note t = detect_marks_frequent_values [of incomes "''annual_income''" 3 4]
  have k0: "3 \<le> int (count_list (map (\<lambda>r. to_numeric_inf (r ''annual_income'')) (rows incomes))
      (Number (123456789 / 100000)))"
    unfolding vals by simp
  have k2: "\<not> 3 \<le> int (count_list (map (\<lambda>r. to_numeric_inf (r ''annual_income'')) (rows incomes))
      (Number (500005 / 10)))"
    unfolding vals by simp
  have i0: "(0::nat) < length (rows incomes)" and i2: "(2::nat) < length (rows incomes)"
    and i3: "(3::nat) < length (rows incomes)"
    unfolding n by simp_all
  have len: "length (detect_suspicious_duplicates incomes ''annual_income'' 3 4) = 6"
    using t [THEN conjunct1] unfolding n .
  have r0: "detect_suspicious_duplicates incomes ''annual_income'' 3 4 ! 0"
    using t [THEN conjunct2, rule_format, OF i0] c v0 k0 by blast
  have r2: "\<not> detect_suspicious_duplicates incomes ''annual_income'' 3 4 ! 2"
    using t [THEN conjunct2, rule_format, OF i2] v2 k2 by (metis npfloat.inject(1))
  have r3: "\<not> detect_suspicious_duplicates incomes ''annual_income'' 3 4 ! 3"
    using t [THEN conjunct2, rule_format, OF i3] v3 by (metis npfloat.distinct(1))
  show ?thesis using i0 i2 i3 len r0 r2 r3 by blast
qed

text \<open>
  Claim C9, counterexample. On the column \<open>inf, inf, 1, 1\<close> with \<open>min_occurrences = 2\<close> the
  detector that looks at frequency alone marks all four rows; the detector of the code
  marks only the rows holding 1, for every precision threshold.
\<close>

theorem frequency_only_marks_infinite_value:
  "detect_frequency_only incomes_inf ''annual_income'' 2 = [True, True, True, True] \<and>
   detect_suspicious_duplicates incomes_inf ''annual_income'' 2 4 = [False, False, True, True] \<and>
   detect_suspicious_duplicates incomes_inf ''annual_income'' 2 0 = [False, False, True, True]"
  by (simp add: detect_finite_frequent detect_frequency_only_def incomes_inf_values
        incomes_inf_column)

text \<open>
  Claim C9, as amended. For any two precision thresholds the detector returns the same
  mask. When the coerced column holds no infinite value, that mask is the one of the
  detector that looks at frequency alone; in general it is that mask with the rows
  holding an infinite value unmarked.
\<close>

theorem detect_ignores_precision:
  "detect_suspicious_duplicates df column min_occurrences p1 =
     detect_suspicious_duplicates df column min_occurrences p2 \<and>
   ((\<forall>b. Infinity b \<notin> set (to_float_series_inf (series df column))) \<longrightarrow>
      detect_suspicious_duplicates df column min_occurrences p1 =
        detect_frequency_only df column min_occurrences) \<and>
   detect_suspicious_duplicates df column min_occurrences p1 =
     map (\<lambda>(m, v). m \<and> (\<forall>b. v \<noteq> Infinity b))
       (zip (detect_frequency_only df column min_occurrences)
            (to_float_series_inf (series df column)))"
proof -
  let ?vals = "to_float_series_inf (series df column)"
  have fin: "(\<exists>x. v = Number x) \<longleftrightarrow> v \<noteq> NaN \<and> (\<forall>b. v \<noteq> Infinity b)" for v
    by (cases v) simp_all
  have a: "detect_suspicious_duplicates df column min_occurrences p1 =
     detect_suspicious_duplicates df column min_occurrences p2"
    by (simp add: detect_finite_frequent)
  have c: "detect_suspicious_duplicates df column min_occurrences p1 =
     map (\<lambda>(m, v). m \<and> (\<forall>b. v \<noteq> Infinity b))
       (zip (detect_frequency_only df column min_occurrences) ?vals)"
  proof (cases "column \<in> set (columns df)")
    case True
    then show ?thesis
      by (auto simp add: detect_finite_frequent detect_frequency_only_def Let_def zip_map1
            zip_same_conv_map fin)
  next
    case False
    have "length ?vals = length (rows df)"
      by (simp add: to_float_series_inf_def series_def)
    then show ?thesis using False
      by (intro nth_equalityI) (simp_all add: detect_finite_frequent detect_frequency_only_def)
  qed
  have b: "detect_suspicious_duplicates df column min_occurrences p1 =
        detect_frequency_only df column min_occurrences"
    if "\<forall>b. Infinity b \<notin> set ?vals"
  proof (cases "column \<in> set (columns df)")
    case True
    have "(\<exists>x. v = Number x) \<longleftrightarrow> v \<noteq> NaN" if "v \<in> set ?vals" for v
    proof (cases v)
      case (Infinity b)
      with that \<open>\<forall>b. Infinity b \<notin> set ?vals\<close> show ?thesis by blast
    qed simp_all
    then show ?thesis using True
      by (simp add: detect_finite_frequent detect_frequency_only_def Let_def)
  next
    case False
    then show ?thesis by (simp add: detect_finite_frequent detect_frequency_only_def)
  qed
  from a b c show ?thesis by blast
qed

text \<open>
  Claim C9, witness: the incomes hold no infinite value, and the masks for the precision
  thresholds 4 and 0 and the mask by frequency alone are the same.
\<close>

theorem detect_ignores_precision_witness:
  "(\<forall>b. Infinity b \<notin> set (to_float_series_inf (series incomes ''annual_income''))) \<and>
   detect_suspicious_duplicates incomes ''annual_income'' 3 4 =
     detect_suspicious_duplicates incomes ''annual_income'' 3 0 \<and>
   detect_suspicious_duplicates incomes ''annual_income'' 3 4 =
     detect_frequency_only incomes ''annual_income'' 3 \<and>
   detect_frequency_only incomes ''annual_income'' 3 = [True, True, False, False, True, False]"
proof -
  have vals: "to_float_series_inf (series incomes ''annual_income'') =
      [Number (123456789 / 100000), Number (123456789 / 100000), Number (500005 / 10), NaN,
       Number (123456789 / 100000), NaN]"
    by (simp add: incomes_def one_column_def mk_row_def series_def to_float_series_inf_def)
  have h: "\<forall>b. Infinity b \<notin> set (to_float_series_inf (series incomes ''annual_income''))"
    unfolding vals by simp
  note t = detect_ignores_precision [of incomes "''annual_income''" 3 4 0]
  have e1: "detect_suspicious_duplicates incomes ''annual_income'' 3 4 =
     detect_suspicious_duplicates incomes ''annual_income'' 3 0"
    using t by (elim conjE)
  have e2: "detect_suspicious_duplicates incomes ''annual_income'' 3 4 =
     detect_frequency_only incomes ''annual_income'' 3"
    using t h by (elim conjE) (erule (1) mp)
  have c: "''annual_income'' \<in> set (columns incomes)"
    by (simp add: incomes_def one_column_def)
  have e3: "detect_frequency_only incomes ''annual_income'' 3 =
      [True, True, False, False, True, False]"
    using c by (simp add: detect_frequency_only_def vals)
  show ?thesis using h e1 e2 e3 by (intro conjI)
qed

section \<open>Properties of the risk scoring\<close>
























lemma zscore_length [simp]: "length (zscore s) = length s"
  by (simp add: zscore_def Let_def)






subsection \<open>The example table of claims\<close>















end
